theory Spec2Isabelle
  imports Complex_Main
begin

section \<open>Data model\<close>

text \<open>
  Vectors are lists of samples and matrices are lists of rows. The samples are modelled
  as exact reals; the rounding of the double-precision arithmetic of the numerical
  library is not part of this model. The one range check the model keeps is that of the
  power of ten in the MMSE designer, which raises when its result is out of range.
\<close>

type_synonym vec = "real list"
type_synonym mat = "real list list"

text \<open>
  The exceptions a call can end with. \<open>InvalidDelay\<close> is the \<open>ValueError\<close> raised
  by the two \<open>design\<close> methods themselves ("Given delay is too large delay");
  \<open>ValueError\<close>, \<open>IndexError\<close> and \<open>LinAlgError\<close> are the ones raised inside the
  numerical library, and \<open>OverflowError\<close> is the one raised by Python's float power.
\<close>

datatype error = InvalidDelay | ValueError | IndexError | LinAlgError | OverflowError

text \<open>
  The attributes of an \<open>Equalizer\<close> instance: \<open>self.N\<close>, \<open>self.w\<close> and
  \<open>self.opt_delay\<close>.
\<close>

record equalizer =
  eq_N :: nat
  eq_w :: vec
  eq_opt_delay :: int

section \<open>The array operations the program calls\<close>

definition np_zeros :: "nat \<Rightarrow> vec" where
  "np_zeros n = replicate n 0"

definition np_eye :: "nat \<Rightarrow> mat" where
  "np_eye n = map (\<lambda>i. map (\<lambda>j. if i = j then 1 else 0) [0..<n]) [0..<n]"

definition ncols :: "mat \<Rightarrow> nat" where
  "ncols M = (case M of [] \<Rightarrow> 0 | r # _ \<Rightarrow> length r)"

definition is_mat :: "nat \<Rightarrow> nat \<Rightarrow> mat \<Rightarrow> bool" where
  "is_mat r c M = (length M = r \<and> list_all (\<lambda>row. length row = c) M)"

definition col :: "mat \<Rightarrow> nat \<Rightarrow> vec" where
  "col M j = map (\<lambda>r. r ! j) M"

definition mat_T :: "mat \<Rightarrow> mat" where
  "mat_T M = map (col M) [0..<ncols M]"

definition dot :: "vec \<Rightarrow> vec \<Rightarrow> real" where
  "dot u v = sum_list (map2 (*) u v)"

text \<open>The operator \<open>@\<close> on two matrices, on a matrix and a vector, and on a vector and a matrix.\<close>

definition mat_mul :: "mat \<Rightarrow> mat \<Rightarrow> mat" where
  "mat_mul A B = map (\<lambda>r. map (\<lambda>j. dot r (col B j)) [0..<ncols B]) A"

definition mat_vec :: "mat \<Rightarrow> vec \<Rightarrow> vec" where
  "mat_vec A v = map (\<lambda>r. dot r v) A"

definition vec_mat :: "vec \<Rightarrow> mat \<Rightarrow> vec" where
  "vec_mat v A = map (\<lambda>j. dot v (col A j)) [0..<ncols A]"

definition mat_add :: "mat \<Rightarrow> mat \<Rightarrow> mat" where
  "mat_add A B = map2 (map2 (+)) A B"

definition smult :: "real \<Rightarrow> mat \<Rightarrow> mat" where
  "smult c A = map (map ((*) c)) A"

definition np_diag :: "mat \<Rightarrow> vec" where
  "np_diag M = map (\<lambda>i. M ! i ! i) [0..<min (length M) (ncols M)]"

text \<open>
  \<open>np.argmax\<close>: the index of the first occurrence of the largest entry; an empty
  sequence raises \<open>ValueError\<close>.
\<close>

primrec argmax_scan :: "real \<Rightarrow> nat \<Rightarrow> nat \<Rightarrow> vec \<Rightarrow> nat" where
  "argmax_scan best bi i [] = bi"
| "argmax_scan best bi i (x # xs) =
     (if best < x then argmax_scan x i (Suc i) xs else argmax_scan best bi (Suc i) xs)"

definition np_argmax :: "vec \<Rightarrow> error + int" where
  "np_argmax xs = (case xs of [] \<Rightarrow> Inl ValueError
                   | x # rest \<Rightarrow> Inr (int (argmax_scan x 0 1 rest)))"

text \<open>
  \<open>scipy.linalg.toeplitz(c, r)\<close>: the matrix with first column \<open>c\<close> and, above the
  diagonal, the entries of \<open>r\<close>; the first entry of \<open>r\<close> is ignored.
\<close>

definition toeplitz :: "vec \<Rightarrow> vec \<Rightarrow> mat" where
  "toeplitz c r =
     map (\<lambda>i. map (\<lambda>j. if j \<le> i then c ! (i - j) else r ! (j - i)) [0..<length r])
       [0..<length c]"

text \<open>
  \<open>np.convolve(a, v)\<close> in its default mode \<open>full\<close>: the longer argument goes first,
  an empty argument raises \<open>ValueError\<close>, and entry \<open>n\<close> of the result is the sum of
  \<open>a[m] * v[n - m]\<close> over the \<open>m\<close> for which both indices are in range.
\<close>

definition conv_full :: "vec \<Rightarrow> vec \<Rightarrow> vec" where
  "conv_full a v =
     map (\<lambda>n. sum_list (map (\<lambda>m. if m \<le> n \<and> n - m < length v then a ! m * v ! (n - m) else 0)
                           [0..<length a]))
       [0..<length a + length v - 1]"

definition np_convolve :: "vec \<Rightarrow> vec \<Rightarrow> error + vec" where
  "np_convolve a v =
     (let (a', v') = (if length v > length a then (v, a) else (a, v))
      in if a' = [] then Inl ValueError
         else if v' = [] then Inl ValueError
         else Inr (conv_full a' v'))"

text \<open>
  \<open>d = np.zeros(n); d[k0] = 1\<close>. An index from \<open>-n\<close> to \<open>-1\<close> counts from the end;
  an index outside \<open>-n .. n-1\<close> raises \<open>IndexError\<close>.
\<close>

definition unit_impulse :: "nat \<Rightarrow> int \<Rightarrow> error + vec" where
  "unit_impulse n k0 =
     (if 0 \<le> k0 \<and> k0 < int n then Inr ((np_zeros n)[nat k0 := 1])
      else if - int n \<le> k0 \<and> k0 < 0 then Inr ((np_zeros n)[nat (int n + k0) := 1])
      else Inl IndexError)"

section \<open>Class Equalizer\<close>

text \<open>
  The constructor. \<open>np.zeros(N)\<close> rejects a negative \<open>N\<close>, so the tap count of an
  instance is a natural number.
\<close>

definition init :: "nat \<Rightarrow> equalizer" where
  "init n = \<lparr>eq_N = n, eq_w = np_zeros n, eq_opt_delay = 0\<rparr>"

text \<open>
  \<open>convMatrix(h, p)\<close>. \<open>np.zeros(p-1)\<close> raises \<open>ValueError\<close> when \<open>p < 1\<close>, and
  \<open>h[0]\<close> raises \<open>IndexError\<close> when \<open>h\<close> is empty.
\<close>

definition convMatrix :: "vec \<Rightarrow> nat \<Rightarrow> error + mat" where
  "convMatrix h p =
     (if p < 1 then Inl ValueError
      else case h of [] \<Rightarrow> Inl IndexError
           | h0 # _ \<Rightarrow> Inr (toeplitz (h @ np_zeros (p - 1)) (h0 # np_zeros (p - 1))))"

definition equalize :: "equalizer \<Rightarrow> vec \<Rightarrow> error + vec" where
  "equalize self inputSamples = np_convolve inputSamples (eq_w self)"

section \<open>Class zeroForcing\<close>

text \<open>
  \<open>np.linalg.pinv\<close> is a parameter of the model. A call of \<open>design\<close> returns the value
  or the exception it ends with, together with the instance as the call leaves it.
  The routine returns a matrix with as many rows as \<open>H\<close> has columns and as many columns
  as \<open>H\<close> has rows; the products of the source raise \<open>ValueError\<close> on any other shape,
  and the model ends the call so at the first of them.

  \<open>zf_scores\<close> is \<open>np.diag(H @ Hp)\<close> of line 63; \<open>zf_finish\<close> is lines 71 to 75, which
  build the target vector, store the weights and return the error.
\<close>

definition zf_finish :: "mat \<Rightarrow> mat \<Rightarrow> nat \<Rightarrow> int \<Rightarrow> equalizer \<Rightarrow> (error + real) \<times> equalizer" where
  "zf_finish H Hp L k0 self =
     (case unit_impulse (eq_N self + L - 1) k0 of
        Inl e \<Rightarrow> (Inl e, self)
      | Inr d \<Rightarrow>
          (Inr (1 - dot (vec_mat (vec_mat d H) Hp) d), self\<lparr>eq_w := mat_vec Hp d\<rparr>))"

definition zf_scores :: "mat \<Rightarrow> mat \<Rightarrow> vec" where
  "zf_scores H Hp = np_diag (mat_mul H Hp)"

text \<open>
  Lines 66 to 69 of the source, followed by the rest of the call: the delay is the
  computed one when the caller gave none; a delay the caller gave is checked against
  \<open>L + N - 1\<close>.
\<close>

definition zf_resolve ::
  "mat \<Rightarrow> mat \<Rightarrow> nat \<Rightarrow> int \<Rightarrow> int option \<Rightarrow> equalizer \<Rightarrow> (error + real) \<times> equalizer" where
  "zf_resolve H Hp L opt_delay delay self =
     (case delay of
        None \<Rightarrow> zf_finish H Hp L opt_delay self
      | Some dl \<Rightarrow>
          if dl \<ge> int L + int (eq_N self) - 1 then (Inl InvalidDelay, self)
          else zf_finish H Hp L dl self)"

definition zf_design ::
  "(mat \<Rightarrow> mat) \<Rightarrow> vec \<Rightarrow> int option \<Rightarrow> equalizer \<Rightarrow> (error + real) \<times> equalizer" where
  "zf_design pinv h delay self =
     (let L = length h in
      case convMatrix h (eq_N self) of
        Inl e \<Rightarrow> (Inl e, self)
      | Inr H \<Rightarrow>
          let Hp = pinv H in
          if \<not> is_mat (eq_N self) (L + eq_N self - 1) Hp then (Inl ValueError, self)
          else case np_argmax (zf_scores H Hp) of
            Inl e \<Rightarrow> (Inl e, self)
          | Inr opt_delay \<Rightarrow>
              zf_resolve H Hp L opt_delay delay (self\<lparr>eq_opt_delay := opt_delay\<rparr>))"

section \<open>Class MMSEEQ\<close>

text \<open>
  \<open>np.linalg.inv\<close> is a parameter of the model; it returns \<open>None\<close> where the routine
  raises \<open>LinAlgError\<close> (a singular matrix). The source evaluates the same inverse three
  times; the model names it once. The routine returns an \<open>N\<close> by \<open>N\<close> matrix; the
  products \<open>H @ R\<close> and \<open>(H @ R) @ H.T\<close> raise \<open>ValueError\<close> on any other shape.

  \<open>mmse_gram\<close> is \<open>H.T @ H + gamma * np.eye(N)\<close>; \<open>mmse_scores\<close> is the diagonal of
  line 93; \<open>mmse_finish\<close> is lines 101 to 108.
\<close>

text \<open>
  \<open>10**x\<close> for a Python number \<open>x\<close>, as in line 91: the float power raises
  \<open>OverflowError\<close> when the result is beyond the largest double, which is
  \<open>(2^53 - 1) * 2^971\<close>. Below that bound the model takes the exact real power.
\<close>

definition dbl_max :: real where
  "dbl_max = (2 ^ 53 - 1) * 2 ^ 971"

definition py_pow10 :: "real \<Rightarrow> error + real" where
  "py_pow10 x = (if 10 powr x > dbl_max then Inl OverflowError else Inr (10 powr x))"

definition mmse_gram :: "mat \<Rightarrow> real \<Rightarrow> nat \<Rightarrow> mat" where
  "mmse_gram H gamma n = mat_add (mat_mul (mat_T H) H) (smult gamma (np_eye n))"

definition mmse_scores :: "mat \<Rightarrow> mat \<Rightarrow> vec" where
  "mmse_scores H R = np_diag (mat_mul (mat_mul H R) (mat_T H))"

definition mmse_finish :: "mat \<Rightarrow> mat \<Rightarrow> nat \<Rightarrow> int \<Rightarrow> equalizer \<Rightarrow> (error + real) \<times> equalizer" where
  "mmse_finish H R L k0 self =
     (case unit_impulse (eq_N self + L - 1) k0 of
        Inl e \<Rightarrow> (Inl e, self)
      | Inr d \<Rightarrow>
          (Inr (1 - dot (vec_mat (vec_mat (vec_mat d H) R) (mat_T H)) d),
           self\<lparr>eq_w := mat_vec (mat_mul R (mat_T H)) d\<rparr>))"

text \<open>
  Lines 96 to 99 of the source, followed by the rest of the call: here the check against
  \<open>L + N - 1\<close> is applied to the delay in use, whether the caller gave it or not.
\<close>

definition mmse_resolve ::
  "mat \<Rightarrow> mat \<Rightarrow> nat \<Rightarrow> int \<Rightarrow> int option \<Rightarrow> equalizer \<Rightarrow> (error + real) \<times> equalizer" where
  "mmse_resolve H R L opt_delay delay self =
     (let k0 = (case delay of None \<Rightarrow> opt_delay | Some dl \<Rightarrow> dl)
      in if k0 \<ge> int L + int (eq_N self) - 1 then (Inl InvalidDelay, self)
         else mmse_finish H R L k0 self)"

definition mmse_design ::
  "(mat \<Rightarrow> mat option) \<Rightarrow> vec \<Rightarrow> real \<Rightarrow> int option \<Rightarrow> equalizer
     \<Rightarrow> (error + real) \<times> equalizer" where
  "mmse_design linv h snr delay self =
     (let L = length h in
      case convMatrix h (eq_N self) of
        Inl e \<Rightarrow> (Inl e, self)
      | Inr H \<Rightarrow>
          case py_pow10 (- snr / 10) of
            Inl e \<Rightarrow> (Inl e, self)
          | Inr gamma \<Rightarrow>
              case linv (mmse_gram H gamma (eq_N self)) of
                None \<Rightarrow> (Inl LinAlgError, self)
              | Some R \<Rightarrow>
                  if \<not> is_mat (eq_N self) (eq_N self) R then (Inl ValueError, self)
                  else case np_argmax (mmse_scores H R) of
                    Inl e \<Rightarrow> (Inl e, self)
                  | Inr opt_delay \<Rightarrow>
                      mmse_resolve H R L opt_delay delay (self\<lparr>eq_opt_delay := opt_delay\<rparr>))"

section \<open>The contracts of the two inversion routines\<close>

text \<open>The four Penrose conditions, which determine the pseudo-inverse.\<close>

definition is_pinv :: "mat \<Rightarrow> mat \<Rightarrow> bool" where
  "is_pinv A X =
     (is_mat (ncols A) (length A) X \<and>
      mat_mul (mat_mul A X) A = A \<and>
      mat_mul (mat_mul X A) X = X \<and>
      mat_T (mat_mul A X) = mat_mul A X \<and>
      mat_T (mat_mul X A) = mat_mul X A)"

definition is_inv :: "mat \<Rightarrow> mat \<Rightarrow> bool" where
  "is_inv A X =
     (is_mat (length A) (length A) X \<and>
      mat_mul A X = np_eye (length A) \<and>
      mat_mul X A = np_eye (length A))"

section \<open>Stand-ins for the inversion routines\<close>

text \<open>
  A routine that returns \<open>y\<close> whatever it is given. The example runs below pass it for
  \<open>np.linalg.pinv\<close> and \<open>np.linalg.inv\<close>, with \<open>y\<close> the matrix the routine returns on the
  one matrix the run hands to it.
\<close>

definition returning :: "'b \<Rightarrow> 'a \<Rightarrow> 'b" where
  [simp]: "returning y x = y"

section \<open>Predicates used in the statements\<close>

text \<open>The weight vector of an instance has \<open>N\<close> entries.\<close>

definition wf_eq :: "equalizer \<Rightarrow> bool" where
  "wf_eq self = (length (eq_w self) = eq_N self)"

text \<open>
  \<open>k\<close> is the index of the first occurrence of the largest entry of \<open>xs\<close>: no entry
  is larger, and every entry before \<open>k\<close> is strictly smaller.
\<close>

definition is_first_argmax :: "vec \<Rightarrow> nat \<Rightarrow> bool" where
  "is_first_argmax xs k =
     (k < length xs \<and> list_all (\<lambda>x. x \<le> xs ! k) xs \<and> list_all (\<lambda>x. x < xs ! k) (take k xs))"


section \<open>The convolution matrix\<close>

lemma convMatrix_Inr:
  assumes "h \<noteq> []" "1 \<le> p"
  shows "convMatrix h p = Inr (toeplitz (h @ np_zeros (p - 1)) (hd h # np_zeros (p - 1)))"
  using assms by (cases h) (simp_all add: convMatrix_def)

lemma convMatrix_Inl: "convMatrix h p = Inl e \<Longrightarrow> e \<noteq> InvalidDelay"
  by (auto simp add: convMatrix_def split: if_splits list.splits)

lemma toeplitz_length: "length (toeplitz c r) = length c"
  by (simp add: toeplitz_def)

lemma toeplitz_row_length: "i < length c \<Longrightarrow> length (toeplitz c r ! i) = length r"
  by (simp add: toeplitz_def)

lemma toeplitz_nth:
  "i < length c \<Longrightarrow> j < length r \<Longrightarrow>
     toeplitz c r ! i ! j = (if j \<le> i then c ! (i - j) else r ! (j - i))"
  by (simp add: toeplitz_def)

lemma is_mat_toeplitz: "is_mat (length c) (length r) (toeplitz c r)"
  by (simp add: is_mat_def toeplitz_def list_all_iff)

lemma convMatrix_shape:
  assumes "convMatrix h p = Inr H"
  shows "h \<noteq> [] \<and> 1 \<le> p \<and> is_mat (length h + p - 1) p H \<and> length H = length h + p - 1"
proof -
  have hp: "h \<noteq> []" "1 \<le> p"
    using assms by (auto simp add: convMatrix_def split: if_splits list.splits)
  have "H = toeplitz (h @ np_zeros (p - 1)) (hd h # np_zeros (p - 1))"
    using assms convMatrix_Inr [OF hp] by simp
  then show ?thesis
    using hp is_mat_toeplitz [of "h @ np_zeros (p - 1)" "hd h # np_zeros (p - 1)"]
    by (simp add: np_zeros_def toeplitz_length)
qed

lemma conv_entry:
  assumes "h \<noteq> []" "1 \<le> p" "i < length h + p - 1" "j < p"
  shows "toeplitz (h @ np_zeros (p - 1)) (hd h # np_zeros (p - 1)) ! i ! j =
           (if j \<le> i \<and> i - j < length h then h ! (i - j) else 0)"
  using assms by (auto simp add: toeplitz_nth np_zeros_def nth_append nth_Cons')

lemma convMatrix_row:
  assumes "h \<noteq> []" "1 \<le> p" "i < length h + p - 1"
  shows "toeplitz (h @ np_zeros (p - 1)) (hd h # np_zeros (p - 1)) ! i =
           map (\<lambda>j. if j \<le> i \<and> i - j < length h then h ! (i - j) else 0) [0..<p]"
proof (rule nth_equalityI)
  show "length (toeplitz (h @ np_zeros (p - 1)) (hd h # np_zeros (p - 1)) ! i) =
        length (map (\<lambda>j. if j \<le> i \<and> i - j < length h then h ! (i - j) else 0) [0..<p])"
    using assms by (simp add: toeplitz_row_length np_zeros_def)
next
  fix j assume "j < length (toeplitz (h @ np_zeros (p - 1)) (hd h # np_zeros (p - 1)) ! i)"
  then have j: "j < p"
    using assms by (simp add: toeplitz_row_length np_zeros_def)
  show "toeplitz (h @ np_zeros (p - 1)) (hd h # np_zeros (p - 1)) ! i ! j =
        map (\<lambda>j. if j \<le> i \<and> i - j < length h then h ! (i - j) else 0) [0..<p] ! j"
    using conv_entry [OF assms j] j by simp
qed

text \<open>
  Claim C4. For an impulse response \<open>h\<close> of length \<open>L \<ge> 1\<close> and \<open>p \<ge> 1\<close> columns,
  \<open>convMatrix(h, p)\<close> returns a matrix with \<open>L + p - 1\<close> rows and \<open>p\<close> columns whose first
  column is \<open>h\<close> followed by \<open>p - 1\<close> zeros, whose entries are constant along each diagonal,
  and whose entry \<open>(i, j)\<close> is \<open>h[i - j]\<close> when \<open>0 \<le> i - j < L\<close> and \<open>0\<close> otherwise.
\<close>

theorem convMatrix_spec:
  assumes "h \<noteq> []" and "1 \<le> p"
  shows "\<exists>H. convMatrix h p = Inr H
           \<and> is_mat (length h + p - 1) p H
           \<and> col H 0 = h @ replicate (p - 1) 0
           \<and> (\<forall>i j. i + 1 < length h + p - 1 \<and> j + 1 < p \<longrightarrow> H ! (i + 1) ! (j + 1) = H ! i ! j)
           \<and> (\<forall>i j. i < length h + p - 1 \<and> j < p \<longrightarrow>
                 H ! i ! j = (if j \<le> i \<and> i - j < length h then h ! (i - j) else 0))"
proof -
  let ?c = "h @ np_zeros (p - 1)" and ?r = "hd h # np_zeros (p - 1)"
  let ?H = "toeplitz ?c ?r"
  have lc: "length ?c = length h + p - 1" and lr: "length ?r = p"
    using assms by (simp_all add: np_zeros_def)
  have shape: "is_mat (length h + p - 1) p ?H"
    using is_mat_toeplitz [of ?c ?r] lc lr by simp
  have entry: "\<And>i j. i < length h + p - 1 \<Longrightarrow> j < p \<Longrightarrow>
      ?H ! i ! j = (if j \<le> i \<and> i - j < length h then h ! (i - j) else 0)"
    using conv_entry [OF assms] by simp
  have first: "col ?H 0 = h @ replicate (p - 1) 0"
  proof (rule nth_equalityI)
    show "length (col ?H 0) = length (h @ replicate (p - 1) 0)"
      using lc by (simp add: col_def toeplitz_length)
  next
    fix i assume "i < length (col ?H 0)"
    then have i: "i < length h + p - 1"
      using lc by (simp add: col_def toeplitz_length)
    have "col ?H 0 ! i = ?H ! i ! 0"
      using i lc by (simp add: col_def toeplitz_length)
    also have "\<dots> = (if i < length h then h ! i else 0)"
      using entry [OF i, of 0] assms by simp
    also have "\<dots> = (h @ replicate (p - 1) 0) ! i"
      using i by (simp add: nth_append)
    finally show "col ?H 0 ! i = (h @ replicate (p - 1) 0) ! i" .
  qed
  have diag: "\<And>i j. i + 1 < length h + p - 1 \<Longrightarrow> j + 1 < p \<Longrightarrow> ?H ! (i + 1) ! (j + 1) = ?H ! i ! j"
  proof -
    fix i j assume a: "i + 1 < length h + p - 1" "j + 1 < p"
    then have "i < length h + p - 1" "j < p" by simp_all
    then show "?H ! (i + 1) ! (j + 1) = ?H ! i ! j"
      using entry [OF a] entry [of i j] by simp
  qed
  show ?thesis
    using convMatrix_Inr [OF assms] shape first diag entry by blast
qed

theorem convMatrix_spec_witness:
  "[1, 1/2] \<noteq> ([]::real list) \<and> (1::nat) \<le> 2 \<and>
   (\<exists>H. convMatrix [1, 1/2] 2 = Inr H
           \<and> is_mat (length [1, 1/2 :: real] + 2 - 1) 2 H
           \<and> col H 0 = [1, 1/2] @ replicate (2 - 1) 0
           \<and> (\<forall>i j. i + 1 < length [1, 1/2 :: real] + 2 - 1 \<and> j + 1 < 2 \<longrightarrow> H ! (i + 1) ! (j + 1) = H ! i ! j)
           \<and> (\<forall>i j. i < length [1, 1/2 :: real] + 2 - 1 \<and> j < 2 \<longrightarrow>
                 H ! i ! j = (if j \<le> i \<and> i - j < length [1, 1/2 :: real] then [1, 1/2] ! (i - j) else 0)))"
  using convMatrix_spec [of "[1, 1/2]" 2] by simp

section \<open>Convolution\<close>

lemma sum_list_upt: "sum_list (map f [0..<n]) = (\<Sum>i<n. f i)"
  by (simp add: interv_sum_list_conv_sum_set_nat atLeast0LessThan)

lemma conv_sum_flip:
  fixes f :: "nat \<Rightarrow> nat \<Rightarrow> real"
  shows "(\<Sum>j<p. if j \<le> n \<and> n - j < L then f (n - j) j else 0) =
         (\<Sum>m<L. if m \<le> n \<and> n - m < p then f m (n - m) else 0)"
proof -
  have "(\<Sum>j<p. if j \<le> n \<and> n - j < L then f (n - j) j else 0) =
        (\<Sum>j\<in>{j \<in> {..<p}. j \<le> n \<and> n - j < L}. f (n - j) j)"
    by (rule sum.inter_filter [symmetric]) simp
  also have "\<dots> = (\<Sum>m\<in>{m \<in> {..<L}. m \<le> n \<and> n - m < p}. f m (n - m))"
    by (rule sum.reindex_bij_witness [where i = "\<lambda>m. n - m" and j = "\<lambda>j. n - j"]) auto
  also have "\<dots> = (\<Sum>m<L. if m \<le> n \<and> n - m < p then f m (n - m) else 0)"
    by (rule sum.inter_filter) simp
  finally show ?thesis .
qed

lemma conv_full_length: "length (conv_full a v) = length a + length v - 1"
  by (simp add: conv_full_def)

lemma conv_full_nth:
  "n < length a + length v - 1 \<Longrightarrow>
     conv_full a v ! n = (\<Sum>m<length a. if m \<le> n \<and> n - m < length v then a ! m * v ! (n - m) else 0)"
  by (simp add: conv_full_def sum_list_upt cong: if_cong)

lemma conv_full_commute: "conv_full a v = conv_full v a"
proof (rule nth_equalityI)
  show "length (conv_full a v) = length (conv_full v a)"
    by (simp add: conv_full_length add.commute)
next
  fix n assume "n < length (conv_full a v)"
  then have n: "n < length a + length v - 1" "n < length v + length a - 1"
    by (simp_all add: conv_full_length add.commute)
  have "conv_full v a ! n =
      (\<Sum>j<length v. if j \<le> n \<and> n - j < length a then a ! (n - j) * v ! j else 0)"
    using n by (simp add: conv_full_nth mult.commute cong: if_cong)
  also have "\<dots> = conv_full a v ! n"
    using n conv_sum_flip [where p = "length v" and n = n and L = "length a" and f = "\<lambda>m j. a ! m * v ! j"]
    by (simp add: conv_full_nth)
  finally show "conv_full a v ! n = conv_full v a ! n" by simp
qed

lemma np_convolve_Inr:
  "a \<noteq> [] \<Longrightarrow> v \<noteq> [] \<Longrightarrow> np_convolve a v = Inr (conv_full a v)"
  by (auto simp add: np_convolve_def conv_full_commute)

lemma np_convolve_empty: "np_convolve [] v = Inl ValueError"
  by (simp add: np_convolve_def)

lemma dot_map_upt:
  "length x = p \<Longrightarrow> dot (map f [0..<p]) x = (\<Sum>j<p. f j * x ! j)"
proof -
  assume l: "length x = p"
  have "map2 (*) (map f [0..<p]) x = map (\<lambda>j. f j * x ! j) [0..<p]"
    using l by (intro nth_equalityI) simp_all
  then show ?thesis by (simp add: dot_def sum_list_upt)
qed

text \<open>
  Claim C5. For an impulse response \<open>h\<close> of length \<open>L \<ge> 1\<close>, \<open>p \<ge> 1\<close> and a vector \<open>x\<close>
  of length \<open>p\<close>, the product of \<open>convMatrix(h, p)\<close> with \<open>x\<close> is the full linear
  convolution of \<open>h\<close> and \<open>x\<close>, a vector of length \<open>L + p - 1\<close>; it is what
  \<open>np.convolve(h, x)\<close> returns.
\<close>

theorem convMatrix_times_vector:
  assumes "h \<noteq> []" and "1 \<le> p" and "length x = p"
  shows "\<exists>H. convMatrix h p = Inr H
           \<and> mat_vec H x = conv_full h x
           \<and> length (mat_vec H x) = length h + p - 1
           \<and> np_convolve h x = Inr (mat_vec H x)"
proof -
  let ?H = "toeplitz (h @ np_zeros (p - 1)) (hd h # np_zeros (p - 1))"
  have len: "length ?H = length h + p - 1"
    using assms by (simp add: toeplitz_length np_zeros_def)
  have eq: "mat_vec ?H x = conv_full h x"
  proof (rule nth_equalityI)
    show "length (mat_vec ?H x) = length (conv_full h x)"
      using len assms by (simp add: mat_vec_def conv_full_length)
  next
    fix i assume "i < length (mat_vec ?H x)"
    then have i: "i < length h + p - 1"
      using len by (simp add: mat_vec_def)
    have "mat_vec ?H x ! i = dot (?H ! i) x"
      using i len by (simp add: mat_vec_def)
    also have "\<dots> = (\<Sum>j<p. (if j \<le> i \<and> i - j < length h then h ! (i - j) else 0) * x ! j)"
      using convMatrix_row [OF assms(1,2) i] dot_map_upt [OF assms(3)] by simp
    also have "\<dots> = (\<Sum>j<p. if j \<le> i \<and> i - j < length h then h ! (i - j) * x ! j else 0)"
      by (intro sum.cong) simp_all
    also have "\<dots> = (\<Sum>m<length h. if m \<le> i \<and> i - m < p then h ! m * x ! (i - m) else 0)"
      by (rule conv_sum_flip [where f = "\<lambda>m j. h ! m * x ! j"])
    also have "\<dots> = conv_full h x ! i"
      using i assms(3) by (simp add: conv_full_nth)
    finally show "mat_vec ?H x ! i = conv_full h x ! i" .
  qed
  have x: "x \<noteq> []" using assms by auto
  show ?thesis
    using convMatrix_Inr [OF assms(1,2)] eq np_convolve_Inr [OF assms(1) x] assms(3)
    by (simp add: conv_full_length)
qed

theorem convMatrix_times_vector_witness:
  "[1, 1/2] \<noteq> ([]::real list) \<and> (1::nat) \<le> 2 \<and> length [3, 4::real] = 2 \<and>
   (\<exists>H. convMatrix [1, 1/2] 2 = Inr H
           \<and> mat_vec H [3, 4] = conv_full [1, 1/2] [3, 4]
           \<and> length (mat_vec H [3, 4]) = length [1, 1/2 :: real] + 2 - 1
           \<and> np_convolve [1, 1/2] [3, 4] = Inr (mat_vec H [3, 4]))"
  using convMatrix_times_vector [of "[1, 1/2]" 2 "[3, 4]"] by simp

text \<open>
  Claim C2, as amended. On an instance with \<open>N \<ge> 1\<close> taps whose weight vector has \<open>N\<close>
  entries, \<open>equalize\<close> returns for every non-empty input the full linear convolution of
  the input with the weights, of length input length \<open>+ N - 1\<close>; for an empty input
  \<open>np.convolve\<close> raises \<open>ValueError\<close>.
\<close>

theorem equalize_full_convolution:
  assumes "wf_eq self" and "1 \<le> eq_N self"
  shows "(inputSamples \<noteq> [] \<longrightarrow>
            equalize self inputSamples = Inr (conv_full inputSamples (eq_w self))
            \<and> length (conv_full inputSamples (eq_w self)) = length inputSamples + eq_N self - 1)
         \<and> equalize self [] = Inl ValueError"
proof -
  have w: "eq_w self \<noteq> []" using assms by (auto simp add: wf_eq_def)
  show ?thesis
    using assms w by (simp add: equalize_def np_convolve_Inr np_convolve_empty conv_full_length wf_eq_def)
qed

theorem equalize_full_convolution_witness:
  "wf_eq (init 3) \<and> 1 \<le> eq_N (init 3) \<and>
   [1, 2] \<noteq> ([]::real list)
   \<and> equalize (init 3) [1, 2] = Inr (conv_full [1, 2] (eq_w (init 3)))
   \<and> length (conv_full [1, 2] (eq_w (init 3))) = length [1, 2 :: real] + eq_N (init 3) - 1
   \<and> equalize (init 3) [] = Inl ValueError"
proof -
  have a: "wf_eq (init 3)" by (simp add: wf_eq_def init_def np_zeros_def)
  have b: "1 \<le> eq_N (init 3)" by (simp add: init_def)
  show ?thesis using a b equalize_full_convolution [OF a b, of "[1, 2]"] by simp
qed

text \<open>
  Claim C2 as stated fails at the empty input: a fresh three-tap instance does not
  return the two zeros, it raises \<open>ValueError\<close>.
\<close>

theorem equalize_empty_input_counterexample:
  "equalize (init 3) [] = Inl ValueError \<and> equalize (init 3) [] \<noteq> Inr (np_zeros (3 - 1))"
  by (simp add: equalize_def init_def np_zeros_def np_convolve_def)

section \<open>The index of the largest score\<close>

lemma argmax_scan_first:
  assumes "length pre = i" and "bi < i" and "pre ! bi = best"
    and "list_all (\<lambda>x. x \<le> best) pre" and "list_all (\<lambda>x. x < best) (take bi pre)"
  shows "is_first_argmax (pre @ xs) (argmax_scan best bi i xs)"
  using assms
proof (induction xs arbitrary: pre i bi best)
  case Nil
  then show ?case by (simp add: is_first_argmax_def)
next
  case (Cons x xs)
  show ?case
  proof (cases "best < x")
    case True
    have le: "list_all (\<lambda>y. y \<le> x) (pre @ [x])"
      using Cons.prems(4) True by (auto simp add: list_all_iff)
    have lt: "list_all (\<lambda>y. y < x) (take i (pre @ [x]))"
      using Cons.prems(1,4) True by (auto simp add: list_all_iff)
    have "is_first_argmax ((pre @ [x]) @ xs) (argmax_scan x i (Suc i) xs)"
      using Cons.prems(1) le lt by (intro Cons.IH) (simp_all add: nth_append)
    then show ?thesis using True by simp
  next
    case False
    have le: "list_all (\<lambda>y. y \<le> best) (pre @ [x])"
      using Cons.prems(4) False by (auto simp add: list_all_iff)
    have lt: "list_all (\<lambda>y. y < best) (take bi (pre @ [x]))"
      using Cons.prems(1,2,5) by simp
    have "is_first_argmax ((pre @ [x]) @ xs) (argmax_scan best bi (Suc i) xs)"
      using Cons.prems(1,2,3) le lt by (intro Cons.IH) (simp_all add: nth_append)
    then show ?thesis using False by simp
  qed
qed

lemma np_argmax_first:
  assumes "np_argmax xs = Inr k"
  shows "0 \<le> k \<and> is_first_argmax xs (nat k)"
proof (cases xs)
  case Nil
  then show ?thesis using assms by (simp add: np_argmax_def)
next
  case (Cons x rest)
  have "is_first_argmax ([x] @ rest) (argmax_scan x 0 1 rest)"
    by (rule argmax_scan_first) simp_all
  then show ?thesis using assms Cons by (auto simp add: np_argmax_def)
qed

lemma np_argmax_bound:
  assumes "np_argmax xs = Inr k"
  shows "0 \<le> k \<and> k < int (length xs)"
  using np_argmax_first [OF assms] by (auto simp add: is_first_argmax_def)

lemma np_argmax_Inl: "np_argmax xs = Inl e \<Longrightarrow> e = ValueError \<and> xs = []"
  by (cases xs) (simp_all add: np_argmax_def)

lemma np_argmax_nonempty: "xs \<noteq> [] \<Longrightarrow> \<exists>k. np_argmax xs = Inr k"
  by (cases xs) (simp_all add: np_argmax_def)

lemma is_first_argmax_iff:
  "is_first_argmax xs k \<longleftrightarrow>
     k < length xs \<and> (\<forall>j<length xs. xs ! j \<le> xs ! k) \<and> (\<forall>j<k. xs ! j < xs ! k)"
  by (auto simp add: is_first_argmax_def list_all_length)

section \<open>The length of the score vectors\<close>

lemma zf_scores_length_le: "length (zf_scores H Hp) \<le> length H"
  by (simp add: zf_scores_def np_diag_def mat_mul_def)

lemma mmse_scores_length_le: "length (mmse_scores H R) \<le> length H"
  by (simp add: mmse_scores_def np_diag_def mat_mul_def)

lemma ncols_mat_mul: "A \<noteq> [] \<Longrightarrow> ncols (mat_mul A B) = ncols B"
  by (cases A) (simp_all add: ncols_def mat_mul_def)

lemma is_mat_ncols: "is_mat r c M \<Longrightarrow> 0 < r \<Longrightarrow> ncols M = c"
  by (cases M) (simp_all add: is_mat_def ncols_def)

lemma ncols_mat_T:
  assumes "0 < ncols M"
  shows "ncols (mat_T M) = length M"
proof -
  have "[0..<ncols M] = 0 # [Suc 0..<ncols M]"
    using assms by (simp add: upt_conv_Cons)
  then have "mat_T M = col M 0 # map (col M) [Suc 0..<ncols M]"
    by (simp add: mat_T_def)
  then show ?thesis
    by (simp add: ncols_def col_def)
qed

lemma zf_scores_length:
  assumes "is_mat n m Hp" "0 < n" "length H = m" "0 < m"
  shows "length (zf_scores H Hp) = m"
proof -
  have "H \<noteq> []" using assms by auto
  then show ?thesis
    using assms by (simp add: zf_scores_def np_diag_def ncols_mat_mul is_mat_ncols) (simp add: mat_mul_def)
qed

lemma mmse_scores_length:
  assumes "is_mat m n H" "0 < n" "0 < m"
  shows "length (mmse_scores H R) = m"
proof -
  have H: "H \<noteq> []" "length H = m" "ncols H = n"
    using assms is_mat_ncols [OF assms(1,3)] by (auto simp add: is_mat_def)
  have "mat_mul H R \<noteq> []" using H by (simp add: mat_mul_def)
  then show ?thesis
    using H assms by (simp add: mmse_scores_def np_diag_def ncols_mat_mul ncols_mat_T) (simp add: mat_mul_def)
qed


section \<open>The power of ten\<close>

lemma py_pow10_cases:
  "py_pow10 x = Inl e \<Longrightarrow> e = OverflowError \<and> dbl_max < 10 powr x"
  "py_pow10 x = Inr g \<Longrightarrow> g = 10 powr x \<and> 10 powr x \<le> dbl_max"
  by (auto simp add: py_pow10_def split: if_splits)

lemma py_pow10_Inr: "10 powr x \<le> dbl_max \<Longrightarrow> py_pow10 x = Inr (10 powr x)"
  by (simp add: py_pow10_def)


lemma powr_snr20:
  "(10::real) powr (- 20 / 10) = 1 / 100"
  "(10::real) powr - 2 = 1 / 100"
  by (simp_all add: powr_minus)

lemma snr20_in_range: "(10::real) powr (- 20 / 10) \<le> dbl_max"
  unfolding powr_snr20 by (simp add: dbl_max_def)

lemma py_pow10_snr20:
  "py_pow10 (- 20 / 10) = Inr (1 / 100)"
  "py_pow10 (- 2) = Inr (1 / 100)"
  using snr20_in_range by (simp_all add: py_pow10_def powr_snr20)

lemma snr_m4000_overflow: "dbl_max < (10::real) powr (- (- 4000) / 10)"
  by (simp add: dbl_max_def)

lemma py_pow10_m4000:
  "py_pow10 (- (- 4000) / 10) = Inl OverflowError"
  "py_pow10 400 = Inl OverflowError"
  using snr_m4000_overflow by (simp_all add: py_pow10_def)

section \<open>The steps of a design call\<close>

lemma unit_impulse_cases:
  "unit_impulse n k0 = Inl e \<Longrightarrow> e = IndexError"
  by (simp add: unit_impulse_def split: if_splits)

lemma unit_impulse_in_range:
  "- int n \<le> k0 \<Longrightarrow> k0 < int n \<Longrightarrow> \<exists>d. unit_impulse n k0 = Inr d \<and> length d = n"
  by (auto simp add: unit_impulse_def np_zeros_def)

lemma zf_finish_Inl:
  "zf_finish H Hp L k0 self = (Inl e, self') \<Longrightarrow> e = IndexError \<and> self' = self"
  by (auto simp add: zf_finish_def split: sum.splits dest: unit_impulse_cases)

lemma mmse_finish_Inl:
  "mmse_finish H R L k0 self = (Inl e, self') \<Longrightarrow> e = IndexError \<and> self' = self"
  by (auto simp add: mmse_finish_def split: sum.splits dest: unit_impulse_cases)

lemma zf_finish_Inr:
  "zf_finish H Hp L k0 self = (Inr mse, self') \<Longrightarrow>
     eq_opt_delay self' = eq_opt_delay self \<and> eq_N self' = eq_N self \<and>
     (\<exists>d. unit_impulse (eq_N self + L - 1) k0 = Inr d \<and> eq_w self' = mat_vec Hp d)"
  by (auto simp add: zf_finish_def split: sum.splits)

lemma mmse_finish_Inr:
  "mmse_finish H R L k0 self = (Inr mse, self') \<Longrightarrow>
     eq_opt_delay self' = eq_opt_delay self \<and> eq_N self' = eq_N self \<and>
     (\<exists>d. unit_impulse (eq_N self + L - 1) k0 = Inr d \<and> eq_w self' = mat_vec (mat_mul R (mat_T H)) d)"
  by (auto simp add: mmse_finish_def split: sum.splits)

lemma zf_finish_ok:
  assumes "- int (eq_N self + L - 1) \<le> k0" and "k0 < int (eq_N self + L - 1)"
  shows "\<exists>mse self'. zf_finish H Hp L k0 self = (Inr mse, self')"
proof -
  obtain d where "unit_impulse (eq_N self + L - 1) k0 = Inr d"
    using unit_impulse_in_range [OF assms] by blast
  then show ?thesis by (simp add: zf_finish_def)
qed


lemma finish_not_invalid:
  "fst (zf_finish H Hp L k0 self) \<noteq> Inl InvalidDelay"
  "fst (mmse_finish H R L k0 self) \<noteq> Inl InvalidDelay"
  by (auto simp add: zf_finish_def mmse_finish_def split: sum.splits dest: unit_impulse_cases)

lemma zf_resolve_Inl:
  assumes "zf_resolve H Hp L od delay s = (Inl e, s')"
  shows "s' = s \<and> (e = InvalidDelay \<longrightarrow> (\<exists>dl. delay = Some dl \<and> int L + int (eq_N s) - 1 \<le> dl))"
  using assms
  by (auto simp add: zf_resolve_def split: option.splits if_splits dest!: zf_finish_Inl)

lemma mmse_resolve_Inl:
  assumes "mmse_resolve H R L od delay s = (Inl e, s')"
  shows "s' = s \<and> (e = InvalidDelay \<longrightarrow>
           int L + int (eq_N s) - 1 \<le> (case delay of None \<Rightarrow> od | Some dl \<Rightarrow> dl))"
  using assms
  by (auto simp add: mmse_resolve_def Let_def split: if_splits dest!: mmse_finish_Inl)

lemma zf_resolve_Inr:
  assumes "zf_resolve H Hp L od delay s = (Inr mse, s')"
  shows "eq_opt_delay s' = eq_opt_delay s \<and> eq_N s' = eq_N s \<and> length (eq_w s') = length Hp"
  using assms
  by (auto simp add: zf_resolve_def mat_vec_def split: option.splits if_splits dest!: zf_finish_Inr)

lemma mmse_resolve_Inr:
  assumes "mmse_resolve H R L od delay s = (Inr mse, s')"
  shows "eq_opt_delay s' = eq_opt_delay s \<and> eq_N s' = eq_N s \<and> length (eq_w s') = length R"
  using assms
  by (auto simp add: mmse_resolve_def Let_def mat_vec_def mat_mul_def split: if_splits
      dest!: mmse_finish_Inr)

text \<open>
  Where the inversion routine returns a matrix of the documented shape, a design call
  gets as far as resolving the delay, and the computed delay is below \<open>L + N - 1\<close>.
\<close>

lemma zf_design_checked:
  assumes H: "convMatrix h (eq_N self) = Inr H"
    and shp: "is_mat (eq_N self) (length h + eq_N self - 1) (pinv H)"
  shows "\<exists>od. np_argmax (zf_scores H (pinv H)) = Inr od \<and> 0 \<le> od
           \<and> od < int (length h) + int (eq_N self) - 1
           \<and> (\<forall>delay. zf_design pinv h delay self =
                 zf_resolve H (pinv H) (length h) od delay (self\<lparr>eq_opt_delay := od\<rparr>))"
proof -
  have s: "h \<noteq> []" "1 \<le> eq_N self" "length H = length h + eq_N self - 1"
    using convMatrix_shape [OF H] by simp_all
  then have pos: "0 < length h + eq_N self - 1" "0 < eq_N self"
    by (cases h; simp)+
  have len: "length (zf_scores H (pinv H)) = length h + eq_N self - 1"
    by (rule zf_scores_length [OF shp pos(2) s(3) pos(1)])
  then have "zf_scores H (pinv H) \<noteq> []" using pos by auto
  then obtain od where od: "np_argmax (zf_scores H (pinv H)) = Inr od"
    using np_argmax_nonempty by blast
  have b: "0 \<le> od" "od < int (length h) + int (eq_N self) - 1"
    using np_argmax_bound [OF od] len pos by auto
  show ?thesis
    using H shp od b by (simp add: zf_design_def Let_def)
qed

lemma mmse_design_checked:
  assumes H: "convMatrix h (eq_N self) = Inr H"
    and R: "linv (mmse_gram H (10 powr (- snr / 10)) (eq_N self)) = Some R"
    and shp: "is_mat (eq_N self) (eq_N self) R"
    and g: "10 powr (- snr / 10) \<le> dbl_max"
  shows "\<exists>od. np_argmax (mmse_scores H R) = Inr od \<and> 0 \<le> od
           \<and> od < int (length h) + int (eq_N self) - 1
           \<and> (\<forall>delay. mmse_design linv h snr delay self =
                 mmse_resolve H R (length h) od delay (self\<lparr>eq_opt_delay := od\<rparr>))"
proof -
  have s: "h \<noteq> []" "1 \<le> eq_N self" "length H = length h + eq_N self - 1"
    "is_mat (length h + eq_N self - 1) (eq_N self) H"
    using convMatrix_shape [OF H] by simp_all
  then have pos: "0 < length h + eq_N self - 1" "0 < eq_N self"
    by (cases h; simp)+
  have len: "length (mmse_scores H R) = length h + eq_N self - 1"
    by (rule mmse_scores_length [OF s(4) pos(2) pos(1)])
  then have "mmse_scores H R \<noteq> []" using pos by auto
  then obtain od where od: "np_argmax (mmse_scores H R) = Inr od"
    using np_argmax_nonempty by blast
  have b: "0 \<le> od" "od < int (length h) + int (eq_N self) - 1"
    using np_argmax_bound [OF od] len pos by auto
  show ?thesis
    using H R shp od b py_pow10_Inr [OF g] by (simp add: mmse_design_def Let_def)
qed

text \<open>What a design call that ends with an exception leaves behind.\<close>

lemma zf_design_error:
  assumes "zf_design pinv h delay self = (Inl e, self')"
  shows "eq_w self' = eq_w self \<and> eq_N self' = eq_N self \<and>
         (e = InvalidDelay \<longrightarrow>
            (\<exists>H dl. convMatrix h (eq_N self) = Inr H
               \<and> np_argmax (zf_scores H (pinv H)) = Inr (eq_opt_delay self')
               \<and> delay = Some dl \<and> int (length h) + int (eq_N self) - 1 \<le> dl))"
  using assms
  by (auto simp add: zf_design_def Let_def
      split: sum.splits if_splits
      dest!: zf_resolve_Inl np_argmax_Inl dest: convMatrix_Inl)

lemma mmse_design_error:
  assumes "mmse_design linv h snr delay self = (Inl e, self')"
  shows "eq_w self' = eq_w self \<and> eq_N self' = eq_N self \<and>
         (e = InvalidDelay \<longrightarrow>
            (\<exists>H R dl. convMatrix h (eq_N self) = Inr H
               \<and> linv (mmse_gram H (10 powr (- snr / 10)) (eq_N self)) = Some R
               \<and> np_argmax (mmse_scores H R) = Inr (eq_opt_delay self')
               \<and> delay = Some dl \<and> int (length h) + int (eq_N self) - 1 \<le> dl))"
proof -
  have bound: "k < int (length h) + int (eq_N self) - 1"
    if H: "convMatrix h (eq_N self) = Inr H" and k: "np_argmax (mmse_scores H R) = Inr k"
    for H R k
  proof -
    have "k < int (length (mmse_scores H R))"
      using np_argmax_bound [OF k] by simp
    moreover have "length (mmse_scores H R) \<le> length H"
      by (rule mmse_scores_length_le)
    moreover have "length H = length h + eq_N self - 1" "h \<noteq> []"
      using convMatrix_shape [OF H] by simp_all
    ultimately show ?thesis
      by (cases h) auto
  qed
  show ?thesis
    using assms
    by (auto simp add: mmse_design_def Let_def
        split: sum.splits option.splits if_splits
        dest!: mmse_resolve_Inl np_argmax_Inl py_pow10_cases dest: bound convMatrix_Inl)
qed

text \<open>
  The weight vector keeps its \<open>N\<close> entries: the constructor gives it \<open>N\<close> zeros, and a
  design call either leaves it alone or stores a product with \<open>N\<close> rows.
\<close>

lemma wf_eq_init: "wf_eq (init n)"
  by (simp add: wf_eq_def init_def np_zeros_def)

lemma zf_design_wf_eq:
  assumes "wf_eq self" and "zf_design pinv h delay self = (r, self')"
  shows "wf_eq self'"
proof (cases r)
  case (Inl e)
  then show ?thesis
    using assms zf_design_error [of pinv h delay self e self'] by (simp add: wf_eq_def)
next
  case (Inr mse)
  then show ?thesis
    using assms(2)
    by (auto simp add: zf_design_def Let_def wf_eq_def is_mat_def
        split: sum.splits if_splits dest!: zf_resolve_Inr)
qed

lemma mmse_design_wf_eq:
  assumes "wf_eq self" and "mmse_design linv h snr delay self = (r, self')"
  shows "wf_eq self'"
proof (cases r)
  case (Inl e)
  then show ?thesis
    using assms mmse_design_error [of linv h snr delay self e self'] by (simp add: wf_eq_def)
next
  case (Inr mse)
  then show ?thesis
    using assms(2)
    by (auto simp add: mmse_design_def Let_def wf_eq_def is_mat_def
        split: sum.splits option.splits if_splits dest!: mmse_resolve_Inr)
qed

section \<open>Evaluating example runs\<close>

lemmas eval_defs =
  convMatrix_def toeplitz_def np_zeros_def init_def is_mat_def zf_scores_def mmse_scores_def
  np_diag_def mat_mul_def mat_vec_def vec_mat_def mat_T_def ncols_def col_def dot_def
  np_argmax_def unit_impulse_def zf_finish_def mmse_finish_def zf_resolve_def mmse_resolve_def
  zf_design_def mmse_design_def mmse_gram_def mat_add_def smult_def np_eye_def Let_def
  py_pow10_snr20

lemma ex_zf_fail:
  "zf_design (returning [[0, 1]]) [0, 1] (Some 2) (init 1) =
     (Inl InvalidDelay, \<lparr>eq_N = 1, eq_w = [0], eq_opt_delay = 1\<rparr>)"
  by (simp add: eval_defs)

lemma ex_mmse_fail:
  "mmse_design (returning (Some [[100 / 101]])) [0, 1] 20 (Some 2) (init 1) =
     (Inl InvalidDelay, \<lparr>eq_N = 1, eq_w = [0], eq_opt_delay = 1\<rparr>)"
  by (simp add: eval_defs)

lemma ex_zf_ok:
  "zf_design (returning [[0, 1]]) [0, 1] (Some 0) (init 1) =
     (Inr 1, \<lparr>eq_N = 1, eq_w = [0], eq_opt_delay = 1\<rparr>)"
  by (simp add: eval_defs)

lemma ex_mmse_ok:
  "mmse_design (returning (Some [[100 / 101]])) [0, 1] 20 (Some 0) (init 1) =
     (Inr 1, \<lparr>eq_N = 1, eq_w = [0], eq_opt_delay = 1\<rparr>)"
  by (simp add: eval_defs)

lemma ex_zf_default:
  "zf_design (returning [[0, 1]]) [0, 1] None (init 1) =
     (Inr 0, \<lparr>eq_N = 1, eq_w = [1], eq_opt_delay = 1\<rparr>)"
  by (simp add: eval_defs)

section \<open>A design call that fails\<close>

text \<open>
  Claim C1, as amended. When \<open>design\<close> ends with an exception, in either designer, the
  stored weight vector and the tap count are what they were before the call: the weights
  are assigned only after every check has passed. When the exception is InvalidDelay, the
  caller had supplied a delay of at least \<open>L + N - 1\<close>, and the stored \<open>opt_delay\<close> is the
  newly computed argmax of the scores, assigned before the delay is checked.
\<close>

theorem design_failure_state:
  "(zf_design pinv h delay self = (Inl e, self') \<longrightarrow>
      eq_w self' = eq_w self \<and> eq_N self' = eq_N self \<and>
      (e = InvalidDelay \<longrightarrow>
         (\<exists>H dl. convMatrix h (eq_N self) = Inr H
            \<and> np_argmax (zf_scores H (pinv H)) = Inr (eq_opt_delay self')
            \<and> delay = Some dl \<and> int (length h) + int (eq_N self) - 1 \<le> dl)))
   \<and> (mmse_design linv h snr delay self = (Inl e, self') \<longrightarrow>
      eq_w self' = eq_w self \<and> eq_N self' = eq_N self \<and>
      (e = InvalidDelay \<longrightarrow>
         (\<exists>H R dl. convMatrix h (eq_N self) = Inr H
            \<and> linv (mmse_gram H (10 powr (- snr / 10)) (eq_N self)) = Some R
            \<and> np_argmax (mmse_scores H R) = Inr (eq_opt_delay self')
            \<and> delay = Some dl \<and> int (length h) + int (eq_N self) - 1 \<le> dl)))"
  using zf_design_error mmse_design_error by blast

theorem design_failure_state_witness:
  "zf_design (returning [[0, 1]]) [0, 1] (Some 2) (init 1) =
     (Inl InvalidDelay, \<lparr>eq_N = 1, eq_w = [0], eq_opt_delay = 1\<rparr>)
   \<and> eq_w \<lparr>eq_N = 1, eq_w = [0], eq_opt_delay = 1\<rparr> = eq_w (init 1)
   \<and> (\<exists>H dl. convMatrix [0, 1] (eq_N (init 1)) = Inr H
        \<and> np_argmax (zf_scores H [[0, 1]]) = Inr 1
        \<and> Some 2 = Some dl \<and> int (length [0, 1 :: real]) + int (eq_N (init 1)) - 1 \<le> dl)
   \<and> mmse_design (returning (Some [[100 / 101]])) [0, 1] 20 (Some 2) (init 1) =
     (Inl InvalidDelay, \<lparr>eq_N = 1, eq_w = [0], eq_opt_delay = 1\<rparr>)
   \<and> (\<exists>H R dl. convMatrix [0, 1] (eq_N (init 1)) = Inr H
        \<and> np_argmax (mmse_scores H R) = Inr 1
        \<and> Some 2 = Some dl \<and> int (length [0, 1 :: real]) + int (eq_N (init 1)) - 1 \<le> dl)"
  using design_failure_state [of "returning [[0, 1]]" "[0, 1]" "Some 2" "init 1" InvalidDelay
      "\<lparr>eq_N = 1, eq_w = [0], eq_opt_delay = 1\<rparr>" "returning (Some [[100 / 101]])" 20]
    ex_zf_fail ex_mmse_fail
  by (auto simp add: init_def)

text \<open>
  Claim C1 as stated fails. A fresh one-tap instance has \<open>opt_delay = 0\<close>; designing for
  \<open>h = [0, 1]\<close> with the delay \<open>2 = L + N - 1\<close> raises InvalidDelay in both designers and
  leaves \<open>opt_delay = 1\<close>. The matrices supplied for the two inversion routines are the
  pseudo-inverse of the convolution matrix and the inverse of the regularised matrix.
\<close>

theorem design_failure_state_counterexample:
  "zf_design (returning [[0, 1]]) [0, 1] (Some 2) (init 1) =
     (Inl InvalidDelay, \<lparr>eq_N = 1, eq_w = [0], eq_opt_delay = 1\<rparr>)
   \<and> mmse_design (returning (Some [[100 / 101]])) [0, 1] 20 (Some 2) (init 1) =
     (Inl InvalidDelay, \<lparr>eq_N = 1, eq_w = [0], eq_opt_delay = 1\<rparr>)
   \<and> eq_opt_delay (init 1) = 0
   \<and> convMatrix [0, 1] 1 = Inr [[0], [1]]
   \<and> is_pinv [[0], [1]] [[0, 1]]
   \<and> is_inv (mmse_gram [[0], [1]] (10 powr (- 20 / 10)) 1) [[100 / 101]]"
proof -
  have "eq_opt_delay (init 1) = 0" by (simp add: init_def)
  moreover have "convMatrix [0, 1] 1 = Inr [[0], [1]]"
    by (simp add: convMatrix_def toeplitz_def np_zeros_def)
  moreover have "is_pinv [[0], [1]] [[0, 1]]"
    by (simp add: is_pinv_def is_mat_def mat_mul_def mat_T_def ncols_def col_def dot_def)
  moreover have "is_inv (mmse_gram [[0], [1]] (10 powr (- 20 / 10)) 1) [[100 / 101]]"
    by (simp add: powr_snr20 is_inv_def mmse_gram_def is_mat_def mat_mul_def mat_T_def mat_add_def
        smult_def np_eye_def ncols_def col_def dot_def)
  ultimately show ?thesis using ex_zf_fail ex_mmse_fail by simp
qed

section \<open>The check of the delay\<close>







section \<open>The stored delay\<close>

text \<open>
  Claim C6. After every successful call of \<open>design\<close>, in either designer and whether or not
  the caller supplied a delay, the stored \<open>opt_delay\<close> is what \<open>np.argmax\<close> returned on
  the scores of this call, it is the index of the first occurrence of the largest score,
  and it lies between \<open>0\<close> and \<open>L + N - 2\<close>.
\<close>

theorem design_opt_delay:
  "(zf_design pinv h delay self = (Inr mse, self') \<longrightarrow>
      (\<exists>H. convMatrix h (eq_N self) = Inr H
         \<and> np_argmax (zf_scores H (pinv H)) = Inr (eq_opt_delay self')
         \<and> is_first_argmax (zf_scores H (pinv H)) (nat (eq_opt_delay self'))
         \<and> 0 \<le> eq_opt_delay self'
         \<and> eq_opt_delay self' \<le> int (length h) + int (eq_N self) - 2))
   \<and> (mmse_design linv h snr delay self = (Inr mse, self') \<longrightarrow>
      (\<exists>H R. convMatrix h (eq_N self) = Inr H
         \<and> linv (mmse_gram H (10 powr (- snr / 10)) (eq_N self)) = Some R
         \<and> np_argmax (mmse_scores H R) = Inr (eq_opt_delay self')
         \<and> is_first_argmax (mmse_scores H R) (nat (eq_opt_delay self'))
         \<and> 0 \<le> eq_opt_delay self'
         \<and> eq_opt_delay self' \<le> int (length h) + int (eq_N self) - 2))"
proof (intro conjI impI)
  assume a: "zf_design pinv h delay self = (Inr mse, self')"
  then obtain H where H: "convMatrix h (eq_N self) = Inr H"
    by (cases "convMatrix h (eq_N self)") (auto simp add: zf_design_def Let_def)
  have shp: "is_mat (eq_N self) (length h + eq_N self - 1) (pinv H)"
    using a H by (auto simp add: zf_design_def Let_def split: if_splits)
  obtain od where od: "np_argmax (zf_scores H (pinv H)) = Inr od" "0 \<le> od"
      "od < int (length h) + int (eq_N self) - 1"
    and d: "zf_design pinv h delay self =
              zf_resolve H (pinv H) (length h) od delay (self\<lparr>eq_opt_delay := od\<rparr>)"
    using zf_design_checked [where pinv = pinv, OF H shp] by blast
  have "eq_opt_delay self' = od"
    using a d by (auto dest!: zf_resolve_Inr)
  then show "\<exists>H. convMatrix h (eq_N self) = Inr H
         \<and> np_argmax (zf_scores H (pinv H)) = Inr (eq_opt_delay self')
         \<and> is_first_argmax (zf_scores H (pinv H)) (nat (eq_opt_delay self'))
         \<and> 0 \<le> eq_opt_delay self'
         \<and> eq_opt_delay self' \<le> int (length h) + int (eq_N self) - 2"
    using H od np_argmax_first [OF od(1)] by auto
next
  assume a: "mmse_design linv h snr delay self = (Inr mse, self')"
  then obtain H where H: "convMatrix h (eq_N self) = Inr H"
    by (cases "convMatrix h (eq_N self)") (auto simp add: mmse_design_def Let_def)
  have g: "10 powr (- snr / 10) \<le> dbl_max"
    using a H by (auto simp add: mmse_design_def Let_def split: sum.splits dest: py_pow10_cases)
  obtain R where R: "linv (mmse_gram H (10 powr (- snr / 10)) (eq_N self)) = Some R"
    using a H py_pow10_Inr [OF g] by (auto simp add: mmse_design_def Let_def split: option.splits)
  have shp: "is_mat (eq_N self) (eq_N self) R"
    using a H R py_pow10_Inr [OF g] by (auto simp add: mmse_design_def Let_def split: if_splits)
  obtain od where od: "np_argmax (mmse_scores H R) = Inr od" "0 \<le> od"
      "od < int (length h) + int (eq_N self) - 1"
    and d: "mmse_design linv h snr delay self =
              mmse_resolve H R (length h) od delay (self\<lparr>eq_opt_delay := od\<rparr>)"
    using mmse_design_checked [where linv = linv, OF H R shp g] by blast
  have "eq_opt_delay self' = od"
    using a d by (auto dest!: mmse_resolve_Inr)
  then show "\<exists>H R. convMatrix h (eq_N self) = Inr H
         \<and> linv (mmse_gram H (10 powr (- snr / 10)) (eq_N self)) = Some R
         \<and> np_argmax (mmse_scores H R) = Inr (eq_opt_delay self')
         \<and> is_first_argmax (mmse_scores H R) (nat (eq_opt_delay self'))
         \<and> 0 \<le> eq_opt_delay self'
         \<and> eq_opt_delay self' \<le> int (length h) + int (eq_N self) - 2"
    using H R od np_argmax_first [OF od(1)] by auto
qed

theorem design_opt_delay_witness:
  "zf_design (returning [[0, 1]]) [0, 1] (Some 0) (init 1) =
     (Inr 1, \<lparr>eq_N = 1, eq_w = [0], eq_opt_delay = 1\<rparr>)
   \<and> (\<exists>H. convMatrix [0, 1] (eq_N (init 1)) = Inr H
         \<and> np_argmax (zf_scores H [[0, 1]]) = Inr 1
         \<and> is_first_argmax (zf_scores H [[0, 1]]) (nat 1))
   \<and> (1::int) \<le> int (length [0, 1 :: real]) + int (eq_N (init 1)) - 2
   \<and> mmse_design (returning (Some [[100 / 101]])) [0, 1] 20 (Some 0) (init 1) =
     (Inr 1, \<lparr>eq_N = 1, eq_w = [0], eq_opt_delay = 1\<rparr>)
   \<and> (\<exists>H. convMatrix [0, 1] (eq_N (init 1)) = Inr H
         \<and> np_argmax (mmse_scores H [[100 / 101]]) = Inr 1
         \<and> is_first_argmax (mmse_scores H [[100 / 101]]) (nat 1))"
  using design_opt_delay [of "returning [[0, 1]]" "[0, 1]" "Some 0" "init 1" 1
      "\<lparr>eq_N = 1, eq_w = [0], eq_opt_delay = 1\<rparr>" "returning (Some [[100 / 101]])" 20]
    ex_zf_ok ex_mmse_ok
  by (auto simp add: init_def)

section \<open>Zero forcing without a delay\<close>

lemma zf_design_None_not_invalid:
  "fst (zf_design pinv h None self) \<noteq> Inl InvalidDelay"
proof
  assume "fst (zf_design pinv h None self) = Inl InvalidDelay"
  then obtain self' where "zf_design pinv h None self = (Inl InvalidDelay, self')"
    by (cases "zf_design pinv h None self") simp
  from zf_design_error [OF this] show False by simp
qed

text \<open>
  Claim C9. Zero-forcing \<open>design\<close> without a delay never raises InvalidDelay. For a channel
  of length \<open>L \<ge> 1\<close> and \<open>N \<ge> 1\<close> taps, where the pseudo-inverse has the documented shape,
  the call succeeds, the delay it uses is the computed \<open>opt_delay\<close>, and that is below
  \<open>L + N - 1\<close>.
\<close>

theorem zf_design_default_delay:
  "fst (zf_design pinv h None self) \<noteq> Inl InvalidDelay
   \<and> (h \<noteq> [] \<and> 1 \<le> eq_N self
        \<and> (\<exists>H. convMatrix h (eq_N self) = Inr H
              \<and> is_mat (eq_N self) (length h + eq_N self - 1) (pinv H))
      \<longrightarrow> (\<exists>mse self'. zf_design pinv h None self = (Inr mse, self')
              \<and> 0 \<le> eq_opt_delay self'
              \<and> eq_opt_delay self' < int (length h) + int (eq_N self) - 1
              \<and> (\<exists>H d. convMatrix h (eq_N self) = Inr H
                    \<and> unit_impulse (eq_N self + length h - 1) (eq_opt_delay self') = Inr d
                    \<and> eq_w self' = mat_vec (pinv H) d)))"
proof (intro conjI impI)
  show "fst (zf_design pinv h None self) \<noteq> Inl InvalidDelay"
    by (rule zf_design_None_not_invalid)
next
  assume a: "h \<noteq> [] \<and> 1 \<le> eq_N self
        \<and> (\<exists>H. convMatrix h (eq_N self) = Inr H
              \<and> is_mat (eq_N self) (length h + eq_N self - 1) (pinv H))"
  then obtain H where H: "convMatrix h (eq_N self) = Inr H"
    and shp: "is_mat (eq_N self) (length h + eq_N self - 1) (pinv H)" by blast
  obtain od where od: "np_argmax (zf_scores H (pinv H)) = Inr od" "0 \<le> od"
      "od < int (length h) + int (eq_N self) - 1"
    and d: "zf_design pinv h None self =
              zf_resolve H (pinv H) (length h) od None (self\<lparr>eq_opt_delay := od\<rparr>)"
    using zf_design_checked [where pinv = pinv, OF H shp] by blast
  have r: "- int (eq_N (self\<lparr>eq_opt_delay := od\<rparr>) + length h - 1) \<le> od"
      "od < int (eq_N (self\<lparr>eq_opt_delay := od\<rparr>) + length h - 1)"
    using od a by (cases h; simp)+
  obtain mse self' where
    f: "zf_finish H (pinv H) (length h) od (self\<lparr>eq_opt_delay := od\<rparr>) = (Inr mse, self')"
    using zf_finish_ok [OF r] by blast
  from zf_finish_Inr [OF f] obtain dv where
    "eq_opt_delay self' = od" "unit_impulse (eq_N self + length h - 1) od = Inr dv"
    "eq_w self' = mat_vec (pinv H) dv" by auto
  then show "\<exists>mse self'. zf_design pinv h None self = (Inr mse, self')
              \<and> 0 \<le> eq_opt_delay self'
              \<and> eq_opt_delay self' < int (length h) + int (eq_N self) - 1
              \<and> (\<exists>H d. convMatrix h (eq_N self) = Inr H
                    \<and> unit_impulse (eq_N self + length h - 1) (eq_opt_delay self') = Inr d
                    \<and> eq_w self' = mat_vec (pinv H) d)"
    using d f od H by (auto simp add: zf_resolve_def)
qed

theorem zf_design_default_delay_witness:
  "[0, 1] \<noteq> ([]::real list) \<and> 1 \<le> eq_N (init 1)
   \<and> convMatrix [0, 1] (eq_N (init 1)) = Inr [[0], [1]]
   \<and> is_mat (eq_N (init 1)) (length [0, 1 :: real] + eq_N (init 1) - 1) [[0, 1]]
   \<and> fst (zf_design (returning [[0, 1]]) [0, 1] None (init 1)) \<noteq> Inl InvalidDelay
   \<and> (\<exists>mse self'. zf_design (returning [[0, 1]]) [0, 1] None (init 1) = (Inr mse, self')
              \<and> 0 \<le> eq_opt_delay self'
              \<and> eq_opt_delay self' < int (length [0, 1 :: real]) + int (eq_N (init 1)) - 1)"
proof -
  have a1: "[0, 1] \<noteq> ([]::real list)" by simp
  have a2: "1 \<le> eq_N (init 1)" by (simp add: init_def)
  have a3: "convMatrix [0, 1] (eq_N (init 1)) = Inr [[0], [1]]" by (simp add: eval_defs)
  have a4: "is_mat (eq_N (init 1)) (length [0, 1 :: real] + eq_N (init 1) - 1) [[0, 1]]"
    by (simp add: eval_defs)
  have a: "[0, 1] \<noteq> ([]::real list) \<and> 1 \<le> eq_N (init 1)
        \<and> (\<exists>H. convMatrix [0, 1] (eq_N (init 1)) = Inr H
              \<and> is_mat (eq_N (init 1)) (length [0, 1 :: real] + eq_N (init 1) - 1) ((returning [[0, 1]]) H))"
    using a1 a2 a3 a4 by simp
  show ?thesis
    using a1 a2 a3 a4 a zf_design_default_delay [of "returning [[0, 1]]" "[0, 1]" "init 1"]
    by blast
qed

section \<open>A negative delay\<close>







section \<open>The two concrete designs\<close>

lemma is_mat_1_1: "is_mat 1 1 X \<Longrightarrow> \<exists>a. X = [[a]]"
  by (auto simp add: is_mat_def length_Suc_conv)

lemma is_mat_2_2: "is_mat 2 2 X \<Longrightarrow> \<exists>a b c d. X = [[a, b], [c, d]]"
  by (auto simp add: is_mat_def length_Suc_conv numeral_2_eq_2)

lemma is_mat_2_3: "is_mat 2 3 X \<Longrightarrow> \<exists>p q r s t u. X = [[p, q, r], [s, t, u]]"
  by (auto simp add: is_mat_def length_Suc_conv numeral_2_eq_2 numeral_3_eq_3)

text \<open>The Penrose conditions leave one matrix; so does being the inverse.\<close>

lemma pinv_1: 
  assumes "is_pinv [[1]] X"
  shows "X = [[1]]"
proof -
  have "is_mat 1 1 X" using assms by (simp add: is_pinv_def ncols_def)
  then obtain a where X: "X = [[a]]" using is_mat_1_1 by blast
  have "mat_mul (mat_mul [[1]] X) [[1]] = [[1]]" using assms by (simp add: is_pinv_def)
  then show ?thesis using X by (simp add: mat_mul_def ncols_def col_def dot_def)
qed

lemma pinv_h2:
  assumes "is_pinv [[1, 0], [1 / 2, 1], [0, 1 / 2]] X"
  shows "X = [[20 / 21, 2 / 21, - (4 / 21)], [- (8 / 21), 16 / 21, 10 / 21]]"
proof -
  let ?H = "[[1, 0], [1 / 2, 1], [0, 1 / 2 :: real]]"
  have "is_mat 2 3 X"
    using assms by (simp add: is_pinv_def ncols_def numeral_2_eq_2 numeral_3_eq_3)
  then obtain p q r s t u where X: "X = [[p, q, r], [s, t, u]]"
    using is_mat_2_3 by blast
  have c1: "mat_mul (mat_mul ?H [[p, q, r], [s, t, u]]) ?H = ?H"
    and c3: "mat_T (mat_mul ?H [[p, q, r], [s, t, u]]) = mat_mul ?H [[p, q, r], [s, t, u]]"
    using assms unfolding X is_pinv_def by blast+
  have e1: "p + q / 2 = 1 \<and> q + r / 2 = 0 \<and> s / 2 + t / 4 = 0 \<and> t + u / 2 = 1"
    using c1 by (simp (no_asm_use) add: mat_mul_def ncols_def col_def dot_def) linarith
  have e3: "p / 2 + s = q \<and> s = r * 2"
    using c3 by (simp (no_asm_use) add: mat_mul_def mat_T_def ncols_def col_def dot_def) linarith
  have s: "s = - (8 / 21)" using e1 e3 by linarith
  have r: "r = - (4 / 21)" using s e3 by linarith
  have q: "q = 2 / 21" using r e1 by linarith
  have p: "p = 20 / 21" using q e1 by linarith
  have t: "t = 16 / 21" using s e1 by linarith
  have u: "u = 10 / 21" using t e1 by linarith
  show ?thesis using X p q r s t u by simp
qed

lemma gram_h2:
  "mmse_gram [[1, 0], [1 / 2, 1], [0, 1 / 2]] (10 powr (- 20 / 10)) 2 =
     [[63 / 50, 1 / 2], [1 / 2, 63 / 50]]"
  by (simp add: powr_minus mmse_gram_def mat_add_def smult_def np_eye_def mat_mul_def mat_T_def
      ncols_def col_def dot_def numeral_2_eq_2)

lemma inv_gram_h2:
  assumes "is_inv [[63 / 50, 1 / 2], [1 / 2, 63 / 50]] R"
  shows "R = [[1575 / 1672, - (625 / 1672)], [- (625 / 1672), 1575 / 1672]]"
proof -
  let ?G = "[[63 / 50, 1 / 2], [1 / 2, 63 / 50 :: real]]"
  have "is_mat 2 2 R"
    using assms by (simp add: is_inv_def numeral_2_eq_2)
  then obtain a b c d where R: "R = [[a, b], [c, d]]"
    using is_mat_2_2 by blast
  have "mat_mul ?G [[a, b], [c, d]] = np_eye (length ?G)"
    using assms unfolding R is_inv_def by blast
  then have e: "63 * a / 50 + c / 2 = 1 \<and> 63 * b / 50 + d / 2 = 0 \<and>
      a / 2 + 63 * c / 50 = 0 \<and> b / 2 + 63 * d / 50 = 1"
    by (simp (no_asm_use) add: mat_mul_def np_eye_def ncols_def col_def dot_def)
  have "a = 1575 / 1672" "b = - (625 / 1672)" "c = - (625 / 1672)" "d = 1575 / 1672"
    using e by linarith+
  then show ?thesis using R by simp
qed

lemma zf_finish_h2:
  assumes "eq_N s = 2"
  shows "zf_finish [[1, 0], [1 / 2, 1], [0, 1 / 2]]
           [[20 / 21, 2 / 21, - (4 / 21)], [- (8 / 21), 16 / 21, 10 / 21]] 2 0 s =
         (Inr (1 / 21), s\<lparr>eq_w := [20 / 21, - (8 / 21)]\<rparr>)"
  using assms
  by (simp add: zf_finish_def unit_impulse_def np_zeros_def vec_mat_def mat_vec_def ncols_def
      col_def dot_def numeral_3_eq_3)

lemma mmse_finish_h2:
  assumes "eq_N s = 2"
  shows "mmse_finish [[1, 0], [1 / 2, 1], [0, 1 / 2]]
           [[1575 / 1672, - (625 / 1672)], [- (625 / 1672), 1575 / 1672]] 2 0 s =
         (Inr (97 / 1672), s\<lparr>eq_w := [1575 / 1672, - (625 / 1672)]\<rparr>)"
  using assms
  by (simp add: mmse_finish_def unit_impulse_def np_zeros_def vec_mat_def mat_vec_def mat_mul_def
      mat_T_def ncols_def col_def dot_def numeral_3_eq_3)

text \<open>
  Claim C7. For the channel \<open>h = [1]\<close> and one tap, where \<open>np.linalg.pinv\<close> returns the
  pseudo-inverse of the convolution matrix, zero-forcing \<open>design\<close> succeeds, with or
  without the delay \<open>0\<close>, returns the error \<open>0\<close> and leaves \<open>w = [1]\<close> and
  \<open>opt_delay = 0\<close>.
\<close>

theorem zf_design_degenerate:
  assumes "convMatrix [1] 1 = Inr H" and "is_pinv H (pinv H)"
  shows "zf_design pinv [1] None (init 1) = (Inr 0, \<lparr>eq_N = 1, eq_w = [1], eq_opt_delay = 0\<rparr>)
         \<and> zf_design pinv [1] (Some 0) (init 1) = (Inr 0, \<lparr>eq_N = 1, eq_w = [1], eq_opt_delay = 0\<rparr>)"
proof -
  have H: "H = [[1]]" using assms(1) by (simp add: eval_defs numeral_2_eq_2 numeral_3_eq_3)
  then have X: "pinv [[1]] = [[1]]" using assms(2) pinv_1 by simp
  show ?thesis using X by (simp add: eval_defs numeral_2_eq_2 numeral_3_eq_3)
qed

theorem zf_design_degenerate_witness:
  "convMatrix [1] 1 = Inr [[1]] \<and> is_pinv [[1]] ((returning [[1]]) [[1::real]])
   \<and> zf_design (returning [[1]]) [1] None (init 1) = (Inr 0, \<lparr>eq_N = 1, eq_w = [1], eq_opt_delay = 0\<rparr>)
   \<and> zf_design (returning [[1]]) [1] (Some 0) (init 1) = (Inr 0, \<lparr>eq_N = 1, eq_w = [1], eq_opt_delay = 0\<rparr>)"
proof -
  have a1: "convMatrix [1] 1 = Inr [[1]]" by (simp add: eval_defs numeral_2_eq_2 numeral_3_eq_3)
  have a2: "is_pinv [[1]] ((returning [[1]]) [[1::real]])" by (simp add: is_pinv_def eval_defs)
  show ?thesis
    using a1 a2 zf_design_degenerate [where pinv = "returning [[1]]", OF a1 a2] by simp
qed

text \<open>
  Claim C8. For \<open>h = [1, 0.5]\<close>, two taps and the delay \<open>0\<close>, where \<open>np.linalg.pinv\<close>
  returns the pseudo-inverse of the convolution matrix and \<open>np.linalg.inv\<close> the inverse of
  the regularised matrix, zero-forcing \<open>design\<close> returns \<open>1/21\<close> and MMSE \<open>design\<close> at
  20 dB, where \<open>gamma = 1/100\<close>, returns \<open>97/1672\<close>, which is strictly larger.
\<close>

theorem mmse_mse_exceeds_zf:
  assumes "convMatrix [1, 1 / 2] 2 = Inr H"
    and "is_pinv H (pinv H)"
    and "linv (mmse_gram H (10 powr (- 20 / 10)) 2) = Some R"
    and "is_inv (mmse_gram H (10 powr (- 20 / 10)) 2) R"
  shows "\<exists>mse_zf self_zf mse_mmse self_mmse.
           zf_design pinv [1, 1 / 2] (Some 0) (init 2) = (Inr mse_zf, self_zf)
           \<and> mmse_design linv [1, 1 / 2] 20 (Some 0) (init 2) = (Inr mse_mmse, self_mmse)
           \<and> mse_zf = 1 / 21 \<and> mse_mmse = 97 / 1672 \<and> mse_zf < mse_mmse"
proof -
  have N: "eq_N (init 2) = 2" by (simp add: init_def)
  have H: "H = [[1, 0], [1 / 2, 1], [0, 1 / 2]]"
    using assms(1) by (simp add: convMatrix_def toeplitz_def np_zeros_def)
  have X: "pinv H = [[20 / 21, 2 / 21, - (4 / 21)], [- (8 / 21), 16 / 21, 10 / 21]]"
    using assms(2) pinv_h2 unfolding H by simp
  have R: "R = [[1575 / 1672, - (625 / 1672)], [- (625 / 1672), 1575 / 1672]]"
    using assms(4) inv_gram_h2 unfolding H gram_h2 by simp
  have c: "convMatrix [1, 1 / 2] (eq_N (init 2)) = Inr H"
    using assms(1) N by simp
  have sp: "is_mat (eq_N (init 2)) (length [1, 1 / 2 :: real] + eq_N (init 2) - 1) (pinv H)"
    unfolding X N by (simp add: is_mat_def)
  have l: "linv (mmse_gram H (10 powr (- 20 / 10)) (eq_N (init 2))) = Some R"
    using assms(3) N by simp
  have sr: "is_mat (eq_N (init 2)) (eq_N (init 2)) R"
    unfolding R N by (simp add: is_mat_def)
  obtain od where zf: "zf_design pinv [1, 1 / 2] (Some 0) (init 2) =
      zf_resolve H (pinv H) (length [1, 1 / 2 :: real]) od (Some 0) (init 2\<lparr>eq_opt_delay := od\<rparr>)"
    using zf_design_checked [where pinv = pinv, OF c sp] by blast
  obtain om where mm: "mmse_design linv [1, 1 / 2] 20 (Some 0) (init 2) =
      mmse_resolve H R (length [1, 1 / 2 :: real]) om (Some 0) (init 2\<lparr>eq_opt_delay := om\<rparr>)"
    using mmse_design_checked [where linv = linv, OF c l sr snr20_in_range] by blast
  have "zf_design pinv [1, 1 / 2] (Some 0) (init 2) =
      (Inr (1 / 21), init 2\<lparr>eq_opt_delay := od, eq_w := [20 / 21, - (8 / 21)]\<rparr>)"
    unfolding zf X unfolding H using zf_finish_h2 [of "init 2\<lparr>eq_opt_delay := od\<rparr>"] N
    by (simp add: zf_resolve_def numeral_2_eq_2)
  moreover have "mmse_design linv [1, 1 / 2] 20 (Some 0) (init 2) =
      (Inr (97 / 1672), init 2\<lparr>eq_opt_delay := om, eq_w := [1575 / 1672, - (625 / 1672)]\<rparr>)"
    unfolding mm unfolding H R using mmse_finish_h2 [of "init 2\<lparr>eq_opt_delay := om\<rparr>"] N
    by (simp add: mmse_resolve_def numeral_2_eq_2)
  ultimately show ?thesis
    by (intro exI [where x = "1 / 21"] exI [where x = "97 / 1672"] exI) simp
qed

theorem mmse_mse_exceeds_zf_witness:
  "convMatrix [1, 1 / 2] 2 = Inr [[1, 0], [1 / 2, 1], [0, 1 / 2]]
   \<and> is_pinv [[1, 0], [1 / 2, 1], [0, 1 / 2]]
        ((returning [[20 / 21, 2 / 21, - (4 / 21)], [- (8 / 21), 16 / 21, 10 / 21]])
           [[1, 0], [1 / 2, 1], [0, 1 / 2 :: real]])
   \<and> (returning (Some [[1575 / 1672, - (625 / 1672)], [- (625 / 1672), 1575 / 1672]]))
        (mmse_gram [[1, 0], [1 / 2, 1], [0, 1 / 2]] (10 powr (- 20 / 10)) 2)
      = Some [[1575 / 1672, - (625 / 1672)], [- (625 / 1672), 1575 / (1672::real)]]
   \<and> is_inv (mmse_gram [[1, 0], [1 / 2, 1], [0, 1 / 2]] (10 powr (- 20 / 10)) 2)
        [[1575 / 1672, - (625 / 1672)], [- (625 / 1672), 1575 / 1672]]
   \<and> (\<exists>mse_zf self_zf mse_mmse self_mmse.
         zf_design (returning [[20 / 21, 2 / 21, - (4 / 21)], [- (8 / 21), 16 / 21, 10 / 21]])
           [1, 1 / 2] (Some 0) (init 2) = (Inr mse_zf, self_zf)
         \<and> mmse_design (returning (Some [[1575 / 1672, - (625 / 1672)], [- (625 / 1672), 1575 / 1672]]))
             [1, 1 / 2] 20 (Some 0) (init 2) = (Inr mse_mmse, self_mmse)
         \<and> mse_zf = 1 / 21 \<and> mse_mmse = 97 / 1672 \<and> mse_zf < mse_mmse)"
proof -
  let ?H = "[[1, 0], [1 / 2, 1], [0, 1 / 2 :: real]]"
  let ?X = "[[20 / 21, 2 / 21, - (4 / 21)], [- (8 / 21), 16 / 21, 10 / 21 :: real]]"
  let ?R = "[[1575 / 1672, - (625 / 1672)], [- (625 / 1672), 1575 / (1672::real)]]"
  have a1: "convMatrix [1, 1 / 2] 2 = Inr ?H"
    by (simp add: convMatrix_def toeplitz_def np_zeros_def)
  have a2: "is_pinv ?H ((returning ?X) ?H)"
    by (simp add: is_pinv_def is_mat_def mat_mul_def mat_T_def ncols_def col_def dot_def)
  have a3: "(returning (Some ?R)) (mmse_gram ?H (10 powr (- 20 / 10)) 2) = Some ?R"
    by simp
  have a4: "is_inv (mmse_gram ?H (10 powr (- 20 / 10)) 2) ?R"
    unfolding gram_h2
    by (simp add: is_inv_def is_mat_def mat_mul_def np_eye_def ncols_def col_def dot_def numeral_2_eq_2)
  show ?thesis
    using a1 a2 a4
      mmse_mse_exceeds_zf [where pinv = "returning ?X" and linv = "returning (Some ?R)", OF a1 a2 a3 a4]
    by simp
qed

end
